theory Spec2Isabelle
  imports Main
begin

section \<open>The lightbox of js/scripts.js\<close>

subsection \<open>JavaScript values used by the lightbox\<close>

text \<open>
  The numbers the lightbox computes with are array indices: integers, and \<open>NaN\<close>, which
  the remainder operator produces for a zero divisor. Fractions and infinities are not
  produced by any operation of the class and are left out.
\<close>

datatype jsnum = Num int | NaN

fun js_add :: "jsnum \<Rightarrow> jsnum \<Rightarrow> jsnum" where
  "js_add (Num a) (Num b) = Num (a + b)"
| "js_add _ _ = NaN"

fun js_sub :: "jsnum \<Rightarrow> jsnum \<Rightarrow> jsnum" where
  "js_sub (Num a) (Num b) = Num (a - b)"
| "js_sub _ _ = NaN"

text \<open>
  The operator \<open>%\<close>: the remainder of the truncating division, with the sign of the
  dividend; \<open>NaN\<close> when the divisor is zero. It never throws. (Where JavaScript gives
  the negative zero, this gives 0: as an index and as a string the two are the same.)
\<close>

fun js_rem :: "jsnum \<Rightarrow> jsnum \<Rightarrow> jsnum" where
  "js_rem (Num a) (Num b) = (if b = 0 then NaN else Num (sgn a * (\<bar>a\<bar> mod \<bar>b\<bar>)))"
| "js_rem _ _ = NaN"

text \<open>Number to string, as an assignment to \<open>textContent\<close> converts it.\<close>

definition digit_char :: "nat \<Rightarrow> char" where
  "digit_char d = ''0123456789'' ! d"

fun digits10 :: "nat \<Rightarrow> string" where
  "digits10 n = (if n < 10 then [digit_char n]
                 else digits10 (n div 10) @ [digit_char (n mod 10)])"

declare digits10.simps [simp del]

fun js_to_string :: "jsnum \<Rightarrow> string" where
  "js_to_string NaN = ''NaN''"
| "js_to_string (Num i) = (if i < 0 then CHR ''-'' # digits10 (nat (- i)) else digits10 (nat i))"

text \<open>
  A string-valued attribute or property that may be absent: \<open>getAttribute\<close> gives
  \<open>null\<close> and a property that the element does not have is \<open>undefined\<close>, both
  \<open>None\<close> here. The operator \<open>||\<close> takes its right operand when the left one is
  absent or the empty string.
\<close>

fun truthy :: "string option \<Rightarrow> bool" where
  "truthy None = False"
| "truthy (Some v) = (v \<noteq> [])"

definition js_or :: "string option \<Rightarrow> string option \<Rightarrow> string option" where
  "js_or a b = (if truthy a then a else b)"

fun dom_string :: "string option \<Rightarrow> string" where
  "dom_string None = ''undefined''"
| "dom_string (Some v) = v"

text \<open>
  The errors: a TypeError is what reading a property of \<open>undefined\<close> throws; a RangeError
  is what a check of an index against the range would throw. The class has no
  \<open>throw\<close> statement, so only the first one occurs.
\<close>

datatype js_error = TypeError | RangeError

subsection \<open>State\<close>

text \<open>An element marked \<open>data-lightbox-item\<close>, as \<open>updateLightbox\<close> reads it.\<close>

record gallery_item =
  data_src :: "string option"
  src :: "string option"
  data_alt :: "string option"
  alt :: "string option"
  data_caption :: "string option"

text \<open>
  The object and the parts of the document it writes: the class \<open>active\<close> of the modal,
  the image, caption and counter of the modal, and the inline \<open>overflow\<close> style of the
  body.
\<close>

record lightbox =
  items :: "gallery_item list"
  currentIndex :: jsnum
  modal_active :: bool
  img_src :: string
  img_alt :: string
  img_animation :: string
  caption_text :: string
  counter_current :: string
  counter_total :: string
  body_overflow :: string

text \<open>
  A call either returns or throws; the assignments made before a throw stay, so the
  state is part of both.
\<close>

datatype outcome = Done lightbox | Threw js_error lightbox

fun state_of :: "outcome \<Rightarrow> lightbox" where
  "state_of (Done s) = s"
| "state_of (Threw e s) = s"

fun returned :: "outcome \<Rightarrow> bool" where
  "returned (Done s) = True"
| "returned (Threw e s) = False"

text \<open>The error a call threw, if it threw.\<close>

fun error_of :: "outcome \<Rightarrow> js_error option" where
  "error_of (Done s) = None"
| "error_of (Threw e s) = Some e"

subsection \<open>The class Lightbox\<close>

text \<open>
  The constructor and \<open>createModal\<close>: the items found under the gallery (none when there
  is no gallery), index 0, a modal without the class \<open>active\<close> and with empty image,
  caption and counter. The body's inline overflow style is not written; it is what the
  page has, the second argument.
\<close>

definition constructor_lb :: "gallery_item list \<Rightarrow> string \<Rightarrow> lightbox" where
  "constructor_lb xs page_overflow =
     \<lparr> items = xs, currentIndex = Num 0, modal_active = False,
       img_src = [], img_alt = [], img_animation = [], caption_text = [],
       counter_current = [], counter_total = [], body_overflow = page_overflow \<rparr>"

text \<open>\<open>this.items[k]\<close>: \<open>undefined\<close> (here \<open>None\<close>) unless \<open>k\<close> is an index of the list.\<close>

fun item_at :: "gallery_item list \<Rightarrow> jsnum \<Rightarrow> gallery_item option" where
  "item_at xs NaN = None"
| "item_at xs (Num i) = (if 0 \<le> i \<and> i < int (length xs) then Some (xs ! nat i) else None)"

text \<open>
  \<open>updateLightbox\<close>: the first use of the item, \<open>item.getAttribute\<close>, throws a TypeError
  when the item is \<open>undefined\<close>; nothing has been written by then.
\<close>

definition updateLightbox :: "lightbox \<Rightarrow> outcome" where
  "updateLightbox s =
     (case item_at (items s) (currentIndex s) of
        None \<Rightarrow> Threw TypeError s
      | Some item \<Rightarrow>
          Done (s\<lparr> img_src := dom_string (js_or (data_src item) (src item)),
                   img_alt := dom_string (js_or (js_or (data_alt item) (alt item)) (Some [])),
                   caption_text := dom_string (js_or (data_caption item) (Some [])),
                   counter_current := js_to_string (js_add (currentIndex s) (Num 1)),
                   counter_total := js_to_string (Num (int (length (items s)))),
                   img_animation := ''fadeIn 0.3s ease-in-out'' \<rparr>))"

definition open_lb :: "jsnum \<Rightarrow> lightbox \<Rightarrow> outcome" where
  "open_lb index s =
     (case updateLightbox (s\<lparr> currentIndex := index \<rparr>) of
        Threw e s' \<Rightarrow> Threw e s'
      | Done s' \<Rightarrow> Done (s'\<lparr> modal_active := True, body_overflow := ''hidden'' \<rparr>))"

definition close_lb :: "lightbox \<Rightarrow> outcome" where
  "close_lb s = Done (s\<lparr> modal_active := False, body_overflow := [] \<rparr>)"

definition next_lb :: "lightbox \<Rightarrow> outcome" where
  "next_lb s =
     updateLightbox
       (s\<lparr> currentIndex :=
            js_rem (js_add (currentIndex s) (Num 1)) (Num (int (length (items s)))) \<rparr>)"

definition prev_lb :: "lightbox \<Rightarrow> outcome" where
  "prev_lb s =
     updateLightbox
       (s\<lparr> currentIndex :=
            js_rem (js_add (js_sub (currentIndex s) (Num 1)) (Num (int (length (items s)))))
                   (Num (int (length (items s)))) \<rparr>)"

subsection \<open>The listeners\<close>

text \<open>
  The listeners of \<open>init\<close> and \<open>setupModalListeners\<close>. Each gallery item opens its own
  position. \<open>closeBtn\<close> is the first element of the modal with \<open>data-lightbox-close\<close>,
  which is the overlay, so the overlay has two listeners that close and the button in
  the container has none. The key listener returns at once unless the modal is active.
  An exception ends the listener that threw it; the next event is handled as usual.
\<close>

datatype event =
    ItemClick nat
  | OverlayClick
  | CloseButtonClick
  | PrevClick
  | NextClick
  | KeyDown string

fun dispatch :: "event \<Rightarrow> lightbox \<Rightarrow> outcome" where
  "dispatch (ItemClick k) s =
     (if k < length (items s) then open_lb (Num (int k)) s else Done s)"
| "dispatch OverlayClick s = close_lb (state_of (close_lb s))"
| "dispatch CloseButtonClick s = Done s"
| "dispatch PrevClick s = prev_lb s"
| "dispatch NextClick s = next_lb s"
| "dispatch (KeyDown k) s =
     (if \<not> modal_active s then Done s
      else if k = ''ArrowLeft'' then prev_lb s
      else if k = ''ArrowRight'' then next_lb s
      else if k = ''Escape'' then close_lb s
      else Done s)"

fun run_events :: "event list \<Rightarrow> lightbox \<Rightarrow> lightbox" where
  "run_events [] s = s"
| "run_events (e # es) s = run_events es (state_of (dispatch e s))"

text \<open>Direct calls of the four methods, one after the other.\<close>

datatype call = Open jsnum | Close | Next | Prev

fun perform :: "call \<Rightarrow> lightbox \<Rightarrow> outcome" where
  "perform (Open i) s = open_lb i s"
| "perform Close s = close_lb s"
| "perform Next s = next_lb s"
| "perform Prev s = prev_lb s"

fun run_calls :: "call list \<Rightarrow> lightbox \<Rightarrow> lightbox" where
  "run_calls [] s = s"
| "run_calls (c # cs) s = run_calls cs (state_of (perform c s))"

fun next_times :: "nat \<Rightarrow> lightbox \<Rightarrow> lightbox" where
  "next_times 0 s = s"
| "next_times (Suc k) s = next_times k (state_of (next_lb s))"

subsection \<open>What the specification observes\<close>

definition itemCount :: "lightbox \<Rightarrow> nat" where
  "itemCount s = length (items s)"

definition isOpen :: "lightbox \<Rightarrow> bool" where
  "isOpen s = modal_active s"

definition scroll_locked :: "lightbox \<Rightarrow> bool" where
  "scroll_locked s = (body_overflow s = ''hidden'')"

fun valid_index :: "jsnum \<Rightarrow> nat \<Rightarrow> bool" where
  "valid_index NaN n = False"
| "valid_index (Num i) n = (0 \<le> i \<and> i < int n)"

definition index_in_range :: "lightbox \<Rightarrow> bool" where
  "index_in_range s = valid_index (currentIndex s) (itemCount s)"

text \<open>
  The overflow style is exactly what \<open>open\<close> and \<open>close\<close> leave: \<open>hidden\<close> with the class
  \<open>active\<close>, empty without it.
\<close>

definition lock_balanced :: "lightbox \<Rightarrow> bool" where
  "lock_balanced s = (body_overflow s = (if modal_active s then ''hidden'' else []))"

subsection \<open>Examples\<close>

text \<open>
  A gallery of three items, each with \<open>data-src\<close> and \<open>data-caption\<close>, and the
  lightbox of that gallery after \<open>open(k)\<close> on a page whose body has no inline overflow.
\<close>

definition photo :: "string \<Rightarrow> string \<Rightarrow> gallery_item" where
  "photo url cap = \<lparr> data_src = Some url, src = None, data_alt = None, alt = None,
                      data_caption = Some cap \<rparr>"

definition gallery3 :: "gallery_item list" where
  "gallery3 = [photo ''A.jpg'' ''A'', photo ''B.jpg'' ''B'', photo ''C.jpg'' ''C'']"

definition showing :: "int \<Rightarrow> lightbox" where
  "showing k = state_of (open_lb (Num k) (constructor_lb gallery3 []))"

section \<open>Properties\<close>

subsection \<open>Frame lemmas\<close>

lemma updateLightbox_frame [simp]:
  "items (state_of (updateLightbox s)) = items s"
  "currentIndex (state_of (updateLightbox s)) = currentIndex s"
  "modal_active (state_of (updateLightbox s)) = modal_active s"
  "body_overflow (state_of (updateLightbox s)) = body_overflow s"
  by (simp_all add: updateLightbox_def split: option.splits)

lemma updateLightbox_returned:
  "returned (updateLightbox s) = (item_at (items s) (currentIndex s) \<noteq> None)"
  by (simp add: updateLightbox_def split: option.splits)

lemma next_lb_frame [simp]:
  "items (state_of (next_lb s)) = items s"
  "modal_active (state_of (next_lb s)) = modal_active s"
  "body_overflow (state_of (next_lb s)) = body_overflow s"
  by (simp_all add: next_lb_def)

lemma prev_lb_frame [simp]:
  "items (state_of (prev_lb s)) = items s"
  "modal_active (state_of (prev_lb s)) = modal_active s"
  "body_overflow (state_of (prev_lb s)) = body_overflow s"
  by (simp_all add: prev_lb_def)

lemma close_lb_frame [simp]:
  "items (state_of (close_lb s)) = items s"
  "currentIndex (state_of (close_lb s)) = currentIndex s"
  "modal_active (state_of (close_lb s)) = False"
  "body_overflow (state_of (close_lb s)) = []"
  by (simp_all add: close_lb_def)

lemma open_lb_frame [simp]:
  "items (state_of (open_lb i s)) = items s"
  "currentIndex (state_of (open_lb i s)) = i"
  by (simp_all add: open_lb_def updateLightbox_def split: option.splits)

lemma open_lb_returned:
  "returned (open_lb i s) = (item_at (items s) i \<noteq> None)"
  by (simp add: open_lb_def updateLightbox_def split: option.splits)

lemma open_lb_lock:
  "modal_active (state_of (open_lb i s)) = (if item_at (items s) i = None then modal_active s else True)"
  "body_overflow (state_of (open_lb i s)) = (if item_at (items s) i = None then body_overflow s else ''hidden'')"
  by (simp_all add: open_lb_def updateLightbox_def split: option.splits)

subsection \<open>Index arithmetic\<close>

lemma js_rem_nonneg:
  "0 \<le> a \<Longrightarrow> 0 < b \<Longrightarrow> js_rem (Num a) (Num b) = Num (a mod b)"
  by (cases "a = 0") (simp_all add: sgn_if)

lemma next_lb_index:
  assumes "currentIndex s = Num i" "0 \<le> i" "i < int (length (items s))"
  shows "currentIndex (state_of (next_lb s)) = Num ((i + 1) mod int (length (items s)))"
    and "returned (next_lb s)"
proof -
  let ?n = "int (length (items s))"
  have n: "0 < ?n" using assms by linarith
  have "js_rem (Num (i + 1)) (Num ?n) = Num ((i + 1) mod ?n)"
    by (rule js_rem_nonneg) (use assms n in linarith)+
  then have r: "js_rem (js_add (currentIndex s) (Num 1)) (Num ?n) = Num ((i + 1) mod ?n)"
    using assms(1) by simp
  show "currentIndex (state_of (next_lb s)) = Num ((i + 1) mod ?n)"
    by (simp add: next_lb_def r)
  have "0 \<le> (i + 1) mod ?n" "(i + 1) mod ?n < ?n"
    using n by simp_all
  then show "returned (next_lb s)"
    by (simp add: next_lb_def updateLightbox_returned r)
qed

lemma prev_lb_index:
  assumes "currentIndex s = Num i" "0 \<le> i" "i < int (length (items s))"
  shows "currentIndex (state_of (prev_lb s)) =
           Num ((i - 1 + int (length (items s))) mod int (length (items s)))"
    and "returned (prev_lb s)"
proof -
  let ?n = "int (length (items s))"
  have n: "0 < ?n" using assms by linarith
  have "js_rem (Num (i - 1 + ?n)) (Num ?n) = Num ((i - 1 + ?n) mod ?n)"
    by (rule js_rem_nonneg) (use assms n in linarith)+
  then have r: "js_rem (js_add (js_sub (currentIndex s) (Num 1)) (Num ?n)) (Num ?n)
                  = Num ((i - 1 + ?n) mod ?n)"
    using assms(1) by simp
  show "currentIndex (state_of (prev_lb s)) = Num ((i - 1 + ?n) mod ?n)"
    by (simp add: prev_lb_def r)
  have "0 \<le> (i - 1 + ?n) mod ?n" "(i - 1 + ?n) mod ?n < ?n"
    using n by simp_all
  then show "returned (prev_lb s)"
    by (simp add: prev_lb_def updateLightbox_returned r)
qed

lemma index_in_rangeD:
  "index_in_range s \<Longrightarrow> \<exists>i. currentIndex s = Num i \<and> 0 \<le> i \<and> i < int (length (items s))"
  by (cases "currentIndex s") (simp_all add: index_in_range_def itemCount_def)

lemma index_in_rangeI:
  "currentIndex s = Num i \<Longrightarrow> 0 \<le> i \<Longrightarrow> i < int (length (items s)) \<Longrightarrow> index_in_range s"
  by (simp add: index_in_range_def itemCount_def)

lemma next_lb_in_range: "index_in_range s \<Longrightarrow> index_in_range (state_of (next_lb s))"
proof -
  assume "index_in_range s"
  then obtain i where i: "currentIndex s = Num i" "0 \<le> i" "i < int (length (items s))"
    using index_in_rangeD by blast
  then have n: "0 < int (length (items s))" by linarith
  show ?thesis
  proof (rule index_in_rangeI)
    show "currentIndex (state_of (next_lb s)) = Num ((i + 1) mod int (length (items s)))"
      using i by (rule next_lb_index)
    show "0 \<le> (i + 1) mod int (length (items s))" using n by simp
    show "(i + 1) mod int (length (items s)) < int (length (items (state_of (next_lb s))))"
      using n by simp
  qed
qed

lemma prev_lb_in_range: "index_in_range s \<Longrightarrow> index_in_range (state_of (prev_lb s))"
proof -
  assume "index_in_range s"
  then obtain i where i: "currentIndex s = Num i" "0 \<le> i" "i < int (length (items s))"
    using index_in_rangeD by blast
  then have n: "0 < int (length (items s))" by linarith
  show ?thesis
  proof (rule index_in_rangeI)
    show "currentIndex (state_of (prev_lb s))
            = Num ((i - 1 + int (length (items s))) mod int (length (items s)))"
      using i by (rule prev_lb_index)
    show "0 \<le> (i - 1 + int (length (items s))) mod int (length (items s))" using n by simp
    show "(i - 1 + int (length (items s))) mod int (length (items s))
            < int (length (items (state_of (prev_lb s))))"
      using n by simp
  qed
qed

lemma close_lb_in_range: "index_in_range s \<Longrightarrow> index_in_range (state_of (close_lb s))"
  by (simp add: index_in_range_def itemCount_def)

lemma open_lb_in_range:
  "0 \<le> i \<Longrightarrow> i < int (length (items s)) \<Longrightarrow> index_in_range (state_of (open_lb (Num i) s))"
  by (simp add: index_in_range_def itemCount_def)

lemma dispatch_in_range: "index_in_range s \<Longrightarrow> index_in_range (state_of (dispatch e s))"
  by (cases e)
     (simp_all add: next_lb_in_range prev_lb_in_range close_lb_in_range open_lb_in_range)

lemma run_events_in_range: "index_in_range s \<Longrightarrow> index_in_range (run_events es s)"
  by (induction es arbitrary: s) (simp_all add: dispatch_in_range)

lemma constructor_in_range: "xs \<noteq> [] \<Longrightarrow> index_in_range (constructor_lb xs ov)"
  by (simp add: index_in_range_def itemCount_def constructor_lb_def)

subsection \<open>Scroll lock\<close>

lemma perform_lock_balanced: "lock_balanced s \<Longrightarrow> lock_balanced (state_of (perform c s))"
  by (cases c) (simp_all add: lock_balanced_def open_lb_lock)

lemma run_calls_lock_balanced: "lock_balanced s \<Longrightarrow> lock_balanced (run_calls cs s)"
  by (induction cs arbitrary: s) (simp_all add: perform_lock_balanced)

lemma perform_lock_eq:
  "scroll_locked s = isOpen s \<Longrightarrow>
   scroll_locked (state_of (perform c s)) = isOpen (state_of (perform c s))"
  by (cases c) (simp_all add: scroll_locked_def isOpen_def open_lb_lock)

lemma run_calls_lock_eq:
  "scroll_locked s = isOpen s \<Longrightarrow> scroll_locked (run_calls cs s) = isOpen (run_calls cs s)"
  by (induction cs arbitrary: s) (simp_all add: perform_lock_eq)

lemma constructor_lock_balanced: "lock_balanced (constructor_lb xs [])"
  by (simp add: lock_balanced_def constructor_lb_def)

lemma close_lb_noop: "\<not> modal_active s \<Longrightarrow> body_overflow s = [] \<Longrightarrow> close_lb s = Done s"
  by (simp add: close_lb_def)

subsection \<open>Repeated next\<close>

lemma next_times_index:
  "currentIndex s = Num i \<Longrightarrow> 0 \<le> i \<Longrightarrow> i < int (length (items s)) \<Longrightarrow>
   currentIndex (next_times k s) = Num ((i + int k) mod int (length (items s)))
   \<and> items (next_times k s) = items s"
proof (induction k arbitrary: s i)
  case 0
  then show ?case by simp
next
  case (Suc k)
  let ?n = "int (length (items s))"
  let ?s = "state_of (next_lb s)"
  have n: "0 < ?n" using Suc.prems by linarith
  have c: "currentIndex ?s = Num ((i + 1) mod ?n)"
    using Suc.prems by (rule next_lb_index)
  have "currentIndex (next_times k ?s) = Num (((i + 1) mod ?n + int k) mod int (length (items ?s)))
        \<and> items (next_times k ?s) = items ?s"
    using c n by (intro Suc.IH) simp_all
  moreover have "((i + 1) mod ?n + int k) mod ?n = (i + int (Suc k)) mod ?n"
  proof -
    have "((i + 1) mod ?n + int k) mod ?n = (i + 1 + int k) mod ?n"
      by (rule mod_add_left_eq)
    also have "i + 1 + int k = i + int (Suc k)" by simp
    finally show ?thesis .
  qed
  ultimately show ?case by simp
qed

subsection \<open>The example states\<close>

lemma showing_facts [simp]:
  "items (showing k) = gallery3"
  "currentIndex (showing k) = Num k"
  "itemCount (showing k) = 3"
  "length gallery3 = 3"
  by (simp_all add: showing_def itemCount_def constructor_lb_def gallery3_def)

subsection \<open>The claims\<close>

text \<open>
  C1. With no items, \<open>next()\<close> and \<open>prev()\<close> should be guarded and do nothing. The
  methods have no guard: on the lightbox the constructor builds for a page without a
  gallery, the remainder by the length 0 is \<open>NaN\<close>, it is stored in \<open>currentIndex\<close>, and
  \<open>updateLightbox\<close> throws a TypeError on the missing item. Only \<open>isOpen\<close> is unchanged.
\<close>

theorem next_prev_empty_gallery_throw:
  "next_lb (constructor_lb [] []) = Threw TypeError ((constructor_lb [] [])\<lparr> currentIndex := NaN \<rparr>)
   \<and> prev_lb (constructor_lb [] []) = Threw TypeError ((constructor_lb [] [])\<lparr> currentIndex := NaN \<rparr>)"
  by (simp add: next_lb_def prev_lb_def updateLightbox_def constructor_lb_def)

text \<open>
  C2. With at least one item and \<open>currentIndex = i\<close> in range, \<open>next()\<close> returns and sets
  \<open>currentIndex\<close> to \<open>(i + 1) mod itemCount\<close>, and \<open>prev()\<close> returns and sets it to
  \<open>(i - 1 + itemCount) mod itemCount\<close>.
\<close>

theorem next_prev_modular:
  assumes "0 < itemCount s" and "currentIndex s = Num i" and "0 \<le> i" and "i < int (itemCount s)"
  shows "returned (next_lb s)
       \<and> currentIndex (state_of (next_lb s)) = Num ((i + 1) mod int (itemCount s))
       \<and> returned (prev_lb s)
       \<and> currentIndex (state_of (prev_lb s)) = Num ((i - 1 + int (itemCount s)) mod int (itemCount s))"
  using assms next_lb_index [of s i] prev_lb_index [of s i]
  by (simp add: itemCount_def)

theorem next_prev_modular_witness:
  "0 < itemCount (showing 2) \<and> currentIndex (showing 2) = Num 2 \<and> (0::int) \<le> 2
   \<and> 2 < int (itemCount (showing 2))
   \<and> returned (next_lb (showing 2)) \<and> currentIndex (state_of (next_lb (showing 2))) = Num 0
   \<and> returned (prev_lb (showing 2)) \<and> currentIndex (state_of (prev_lb (showing 2))) = Num 1"
  using next_prev_modular [of "showing 2" 2] by simp

text \<open>
  C3. For an index \<open>i\<close> of the gallery, \<open>open(i)\<close> returns with \<open>currentIndex = i\<close> and the
  lightbox open, and the counter shows \<open>i + 1\<close> and the number of items, in decimal.
\<close>

theorem open_valid_index:
  assumes "0 \<le> i" and "i < int (itemCount s)"
  shows "returned (open_lb (Num i) s)
       \<and> currentIndex (state_of (open_lb (Num i) s)) = Num i
       \<and> isOpen (state_of (open_lb (Num i) s))
       \<and> counter_current (state_of (open_lb (Num i) s)) = js_to_string (Num (i + 1))
       \<and> counter_total (state_of (open_lb (Num i) s)) = js_to_string (Num (int (itemCount s)))"
  using assms
  by (simp add: open_lb_def updateLightbox_def isOpen_def itemCount_def)

theorem open_valid_index_witness:
  "(0::int) \<le> 1 \<and> 1 < int (itemCount (constructor_lb gallery3 []))
   \<and> returned (open_lb (Num 1) (constructor_lb gallery3 []))
   \<and> currentIndex (state_of (open_lb (Num 1) (constructor_lb gallery3 []))) = Num 1
   \<and> isOpen (state_of (open_lb (Num 1) (constructor_lb gallery3 [])))
   \<and> counter_current (state_of (open_lb (Num 1) (constructor_lb gallery3 []))) = ''2''
   \<and> counter_total (state_of (open_lb (Num 1) (constructor_lb gallery3 []))) = ''3''"
proof -
  have n: "itemCount (constructor_lb gallery3 []) = 3"
    by (simp add: itemCount_def constructor_lb_def gallery3_def)
  have d: "js_to_string (Num 2) = ''2''" "js_to_string (Num 3) = ''3''"
    by (simp_all add: digits10.simps digit_char_def)
  show ?thesis
    using open_valid_index [of 1 "constructor_lb gallery3 []"] n d by simp
qed

text \<open>
  C4. With at least one item, \<open>0 \<le> currentIndex < itemCount\<close> holds in the state the
  constructor builds (index 0, closed), is kept by \<open>next()\<close>, \<open>prev()\<close>, \<open>close()\<close> and by
  \<open>open(i)\<close> for an index \<open>i\<close> of the gallery, and so holds after every sequence of events
  of the listeners.
\<close>

theorem index_invariant:
  "(xs \<noteq> [] \<longrightarrow>
      currentIndex (constructor_lb xs ov) = Num 0 \<and> \<not> isOpen (constructor_lb xs ov)
      \<and> index_in_range (constructor_lb xs ov)
      \<and> index_in_range (run_events es (constructor_lb xs ov)))
   \<and> (0 < itemCount s \<and> index_in_range s \<longrightarrow>
        index_in_range (state_of (next_lb s))
      \<and> index_in_range (state_of (prev_lb s))
      \<and> index_in_range (state_of (close_lb s))
      \<and> (0 \<le> i \<and> i < int (itemCount s) \<longrightarrow> index_in_range (state_of (open_lb (Num i) s))))"
proof (intro conjI impI)
  assume "xs \<noteq> []"
  then show "index_in_range (constructor_lb xs ov)" by (rule constructor_in_range)
  then show "index_in_range (run_events es (constructor_lb xs ov))"
    by (rule run_events_in_range)
next
  show "currentIndex (constructor_lb xs ov) = Num 0" by (simp add: constructor_lb_def)
  show "\<not> isOpen (constructor_lb xs ov)" by (simp add: constructor_lb_def isOpen_def)
next
  assume "0 < itemCount s \<and> index_in_range s"
  then show "index_in_range (state_of (next_lb s))" "index_in_range (state_of (prev_lb s))"
    "index_in_range (state_of (close_lb s))"
    by (simp_all add: next_lb_in_range prev_lb_in_range close_lb_in_range)
next
  assume "0 \<le> i \<and> i < int (itemCount s)"
  then show "index_in_range (state_of (open_lb (Num i) s))"
    by (simp add: open_lb_in_range itemCount_def)
qed

theorem index_invariant_witness:
  "gallery3 \<noteq> []
   \<and> index_in_range (constructor_lb gallery3 [])
   \<and> index_in_range (run_events [ItemClick 2, NextClick, KeyDown ''ArrowLeft'', OverlayClick]
                        (constructor_lb gallery3 []))
   \<and> 0 < itemCount (showing 2) \<and> index_in_range (showing 2)
   \<and> index_in_range (state_of (next_lb (showing 2)))
   \<and> index_in_range (state_of (prev_lb (showing 2)))
   \<and> index_in_range (state_of (close_lb (showing 2)))
   \<and> (0::int) \<le> 1 \<and> 1 < int (itemCount (showing 2))
   \<and> index_in_range (state_of (open_lb (Num 1) (showing 2)))"
proof -
  have h: "gallery3 \<noteq> []" "0 < itemCount (showing 2)" "index_in_range (showing 2)"
    by (simp_all add: gallery3_def index_in_range_def)
  show ?thesis
    using h index_invariant [of gallery3 "[]"
        "[ItemClick 2, NextClick, KeyDown ''ArrowLeft'', OverlayClick]" "showing 2" 1]
    by simp
qed

text \<open>
  C5. With at least one item and \<open>currentIndex\<close> in range, \<open>next()\<close> then \<open>prev()\<close> gives
  back the index it started from, and so does \<open>prev()\<close> then \<open>next()\<close>; all four calls
  return.
\<close>

theorem next_prev_inverse:
  assumes "0 < itemCount s" and "currentIndex s = Num i" and "0 \<le> i" and "i < int (itemCount s)"
  shows "returned (next_lb s) \<and> returned (prev_lb (state_of (next_lb s)))
       \<and> currentIndex (state_of (prev_lb (state_of (next_lb s)))) = currentIndex s
       \<and> returned (prev_lb s) \<and> returned (next_lb (state_of (prev_lb s)))
       \<and> currentIndex (state_of (next_lb (state_of (prev_lb s)))) = currentIndex s"
proof -
  let ?n = "int (length (items s))"
  have b: "0 \<le> i" "i < ?n" "0 < ?n" using assms by (simp_all add: itemCount_def)
  let ?s1 = "state_of (next_lb s)" and ?s2 = "state_of (prev_lb s)"
  have c1: "currentIndex ?s1 = Num ((i + 1) mod ?n)" and r1: "returned (next_lb s)"
    using assms(2) b(1,2) by (rule next_lb_index)+
  have c2: "currentIndex ?s2 = Num ((i - 1 + ?n) mod ?n)" and r2: "returned (prev_lb s)"
    using assms(2) b(1,2) by (rule prev_lb_index)+
  have b1: "0 \<le> (i + 1) mod ?n" "(i + 1) mod ?n < int (length (items ?s1))"
    using b(3) by simp_all
  have b2: "0 \<le> (i - 1 + ?n) mod ?n" "(i - 1 + ?n) mod ?n < int (length (items ?s2))"
    using b(3) by simp_all
  have rt1: "((i + 1) mod ?n - 1 + ?n) mod ?n = i"
  proof -
    have "((i + 1) mod ?n - 1 + ?n) mod ?n = ((i + 1) mod ?n + (?n - 1)) mod ?n"
      by (simp add: algebra_simps)
    also have "\<dots> = (i + 1 + (?n - 1)) mod ?n" by (rule mod_add_left_eq)
    also have "\<dots> = i" using b by simp
    finally show ?thesis .
  qed
  have rt2: "((i - 1 + ?n) mod ?n + 1) mod ?n = i"
  proof -
    have "((i - 1 + ?n) mod ?n + 1) mod ?n = (i - 1 + ?n + 1) mod ?n"
      by (rule mod_add_left_eq)
    also have "\<dots> = i" using b by simp
    finally show ?thesis .
  qed
  have "currentIndex (state_of (prev_lb ?s1)) = Num i"
    using prev_lb_index(1) [OF c1 b1] rt1 by simp
  moreover have "returned (prev_lb ?s1)" using c1 b1 by (rule prev_lb_index)
  moreover have "currentIndex (state_of (next_lb ?s2)) = Num i"
    using next_lb_index(1) [OF c2 b2] rt2 by simp
  moreover have "returned (next_lb ?s2)" using c2 b2 by (rule next_lb_index)
  ultimately show ?thesis using r1 r2 assms(2) by simp
qed

theorem next_prev_inverse_witness:
  "0 < itemCount (showing 0) \<and> currentIndex (showing 0) = Num 0 \<and> (0::int) \<le> 0
   \<and> 0 < int (itemCount (showing 0))
   \<and> currentIndex (state_of (prev_lb (state_of (next_lb (showing 0))))) = Num 0
   \<and> currentIndex (state_of (next_lb (state_of (prev_lb (showing 0))))) = Num 0"
  using next_prev_inverse [of "showing 0" 0] by simp

text \<open>
  C6. With at least one item and \<open>currentIndex\<close> in range, \<open>next()\<close> called \<open>itemCount\<close>
  times gives back the index it started from.
\<close>

theorem next_cycle:
  assumes "0 < itemCount s" and "currentIndex s = Num i" and "0 \<le> i" and "i < int (itemCount s)"
  shows "currentIndex (next_times (itemCount s) s) = currentIndex s"
proof -
  have "currentIndex (next_times (length (items s)) s)
          = Num ((i + int (length (items s))) mod int (length (items s)))"
    using assms next_times_index [of s i "length (items s)"] by (simp add: itemCount_def)
  then show ?thesis using assms by (simp add: itemCount_def)
qed

theorem next_cycle_witness:
  "0 < itemCount (showing 1) \<and> currentIndex (showing 1) = Num 1 \<and> (0::int) \<le> 1
   \<and> 1 < int (itemCount (showing 1))
   \<and> currentIndex (next_times 3 (showing 1)) = Num 1"
  using next_cycle [of "showing 1" 1] by simp

text \<open>
  C7, as stated, fails in its second half: \<open>close()\<close> on a closed lightbox is not always
  a no-op. The constructor does not write the body's overflow, and \<open>close()\<close> clears it
  whatever it is; on a page whose body has the inline overflow \<open>hidden\<close> (set in the page,
  or by the mobile menu of the same file, which writes the same style) the lightbox is
  closed and \<open>close()\<close> changes the state.
\<close>

theorem close_when_closed_counterexample:
  "\<not> isOpen (constructor_lb gallery3 ''hidden'')
   \<and> close_lb (constructor_lb gallery3 ''hidden'') \<noteq> Done (constructor_lb gallery3 ''hidden'')
   \<and> scroll_locked (constructor_lb gallery3 ''hidden'')
   \<and> \<not> scroll_locked (state_of (close_lb (constructor_lb gallery3 ''hidden'')))"
  by (simp add: close_lb_def constructor_lb_def isOpen_def scroll_locked_def)

text \<open>
  C7, amended. From any state \<open>close()\<close> returns, leaves the lightbox closed and the
  body's overflow empty, and a second \<open>close()\<close> gives exactly the state of the first.
  \<open>close()\<close> changes nothing exactly when the lightbox is closed and the body's overflow is
  already empty; that is so for every closed state reached by calls of the four methods
  from the state the constructor builds on a page whose body has no inline overflow.
\<close>

theorem close_idempotent:
  "returned (close_lb s)
   \<and> close_lb (state_of (close_lb s)) = close_lb s
   \<and> \<not> isOpen (state_of (close_lb s))
   \<and> body_overflow (state_of (close_lb s)) = []
   \<and> \<not> scroll_locked (state_of (close_lb s))
   \<and> (close_lb s = Done s) = (\<not> isOpen s \<and> body_overflow s = [])
   \<and> (\<not> isOpen (run_calls cs (constructor_lb xs [])) \<longrightarrow>
        close_lb (run_calls cs (constructor_lb xs [])) = Done (run_calls cs (constructor_lb xs [])))"
proof (intro conjI impI)
  show "returned (close_lb s)" by (simp add: close_lb_def)
  show "close_lb (state_of (close_lb s)) = close_lb s" by (simp add: close_lb_def)
  show "\<not> isOpen (state_of (close_lb s))" by (simp add: isOpen_def)
  show "body_overflow (state_of (close_lb s)) = []" by simp
  show "\<not> scroll_locked (state_of (close_lb s))" by (simp add: scroll_locked_def)
next
  show "(close_lb s = Done s) = (\<not> isOpen s \<and> body_overflow s = [])"
  proof
    assume "close_lb s = Done s"
    then have "state_of (close_lb s) = s" by simp
    then have "modal_active s = modal_active (state_of (close_lb s))"
      and "body_overflow s = body_overflow (state_of (close_lb s))"
      by simp_all
    then show "\<not> isOpen s \<and> body_overflow s = []" by (simp add: isOpen_def)
  next
    assume "\<not> isOpen s \<and> body_overflow s = []"
    then show "close_lb s = Done s" by (simp add: close_lb_noop isOpen_def)
  qed
next
  let ?r = "run_calls cs (constructor_lb xs [])"
  assume closed: "\<not> isOpen ?r"
  have "lock_balanced ?r"
    using constructor_lock_balanced by (rule run_calls_lock_balanced)
  then have "body_overflow ?r = []"
    using closed by (simp add: lock_balanced_def isOpen_def)
  then show "close_lb ?r = Done ?r"
    using closed by (simp add: close_lb_noop isOpen_def)
qed

theorem close_idempotent_witness:
  "\<not> isOpen (run_calls [Open (Num 1), Close] (constructor_lb gallery3 []))
   \<and> close_lb (run_calls [Open (Num 1), Close] (constructor_lb gallery3 []))
       = Done (run_calls [Open (Num 1), Close] (constructor_lb gallery3 []))
   \<and> close_lb (state_of (close_lb (showing 1))) = close_lb (showing 1)
   \<and> close_lb (showing 1) \<noteq> Done (showing 1)"
proof -
  have h: "\<not> isOpen (run_calls [Open (Num 1), Close] (constructor_lb gallery3 []))"
    by (simp add: isOpen_def)
  have o: "isOpen (showing 1)"
    by (simp add: showing_def isOpen_def open_lb_lock constructor_lb_def gallery3_def)
  show ?thesis
    using h o close_idempotent [of "showing 1" "[Open (Num 1), Close]" gallery3] by blast
qed

text \<open>
  C8, as stated, fails: on a gallery of three items \<open>open(5)\<close> throws a TypeError, the one
  \<open>updateLightbox\<close> raises on the missing item, not a range error, and \<open>currentIndex\<close> is
  5 by then.
\<close>

theorem open_out_of_range_counterexample:
  "error_of (open_lb (Num 5) (constructor_lb gallery3 [])) = Some TypeError
   \<and> error_of (open_lb (Num 5) (constructor_lb gallery3 [])) \<noteq> Some RangeError
   \<and> currentIndex (state_of (open_lb (Num 5) (constructor_lb gallery3 []))) = Num 5"
  by (simp add: open_lb_def updateLightbox_def constructor_lb_def gallery3_def)

text \<open>
  C8, amended. \<open>open(index)\<close> does not check the range. With an index that is not one of
  the gallery it stores the index as given, neither clamped nor wrapped, and then throws
  the TypeError of \<open>updateLightbox\<close>; the modal is not made active and the body's overflow
  is not written.
\<close>

theorem open_out_of_range:
  assumes "item_at (items s) index = None"
  shows "open_lb index s = Threw TypeError (s\<lparr> currentIndex := index \<rparr>)"
  using assms by (simp add: open_lb_def updateLightbox_def)

theorem open_out_of_range_witness:
  "item_at (items (constructor_lb gallery3 [])) (Num (- 1)) = None
   \<and> open_lb (Num (- 1)) (constructor_lb gallery3 [])
       = Threw TypeError ((constructor_lb gallery3 [])\<lparr> currentIndex := Num (- 1) \<rparr>)"
proof -
  have h: "item_at (items (constructor_lb gallery3 [])) (Num (- 1)) = None"
    by simp
  show ?thesis using h open_out_of_range [OF h] by simp
qed

text \<open>
  C9, as stated, fails: the lock is not held exactly when the lightbox is open after
  every sequence of calls. The constructor does not write the body's overflow, and
  \<open>next()\<close> and \<open>prev()\<close> do not either; on a page whose body has the inline overflow
  \<open>hidden\<close> (set in the page, or by the mobile menu of the same file, which writes the same
  style) the lock is held after \<open>next()\<close> and \<open>prev()\<close> while the lightbox is closed.
\<close>

theorem scroll_lock_counterexample:
  "scroll_locked (run_calls [Next, Prev] (constructor_lb gallery3 ''hidden''))
   \<and> \<not> isOpen (run_calls [Next, Prev] (constructor_lb gallery3 ''hidden''))"
  by (simp add: scroll_locked_def isOpen_def constructor_lb_def)

text \<open>
  C9, amended. \<open>open(i)\<close> for an index of the gallery returns with the lightbox open and
  the lock held, and \<open>close()\<close> returns with the lightbox closed and the lock released,
  from any state. \<open>next()\<close>, \<open>prev()\<close> and an \<open>open\<close> with an index that is not one of the
  gallery leave \<open>isOpen\<close> and the body's overflow as they are. So when the lock is held
  exactly when the lightbox is open before a sequence of \<open>open\<close>, \<open>close\<close>, \<open>next\<close> and
  \<open>prev\<close> calls, it is so after it; this is the case from the state the constructor
  builds on a page whose body has no inline overflow.
\<close>

theorem scroll_lock_follows_open:
  "(item_at (items s) i \<noteq> None \<longrightarrow>
        returned (open_lb i s) \<and> isOpen (state_of (open_lb i s))
        \<and> scroll_locked (state_of (open_lb i s)))
   \<and> (item_at (items s) j = None \<longrightarrow>
        \<not> returned (open_lb j s) \<and> isOpen (state_of (open_lb j s)) = isOpen s
        \<and> body_overflow (state_of (open_lb j s)) = body_overflow s)
   \<and> returned (close_lb s) \<and> \<not> isOpen (state_of (close_lb s))
   \<and> \<not> scroll_locked (state_of (close_lb s))
   \<and> isOpen (state_of (next_lb s)) = isOpen s
   \<and> body_overflow (state_of (next_lb s)) = body_overflow s
   \<and> isOpen (state_of (prev_lb s)) = isOpen s
   \<and> body_overflow (state_of (prev_lb s)) = body_overflow s
   \<and> (scroll_locked s = isOpen s \<longrightarrow> scroll_locked (run_calls cs s) = isOpen (run_calls cs s))
   \<and> scroll_locked (run_calls cs (constructor_lb xs [])) = isOpen (run_calls cs (constructor_lb xs []))"
proof (intro conjI impI)
  assume v: "item_at (items s) i \<noteq> None"
  then show "returned (open_lb i s)" by (simp add: open_lb_returned)
  show "isOpen (state_of (open_lb i s))" using v by (auto simp add: isOpen_def open_lb_lock)
  show "scroll_locked (state_of (open_lb i s))"
    using v by (auto simp add: scroll_locked_def open_lb_lock)
next
  assume n: "item_at (items s) j = None"
  then show "\<not> returned (open_lb j s)" by (simp add: open_lb_returned)
  show "isOpen (state_of (open_lb j s)) = isOpen s"
    using n by (simp add: isOpen_def open_lb_lock)
  show "body_overflow (state_of (open_lb j s)) = body_overflow s"
    using n by (simp add: open_lb_lock)
next
  show "returned (close_lb s)" by (simp add: close_lb_def)
  show "\<not> isOpen (state_of (close_lb s))" by (simp add: isOpen_def)
  show "\<not> scroll_locked (state_of (close_lb s))" by (simp add: scroll_locked_def)
  show "isOpen (state_of (next_lb s)) = isOpen s" by (simp add: isOpen_def)
  show "body_overflow (state_of (next_lb s)) = body_overflow s" by simp
  show "isOpen (state_of (prev_lb s)) = isOpen s" by (simp add: isOpen_def)
  show "body_overflow (state_of (prev_lb s)) = body_overflow s" by simp
next
  assume "scroll_locked s = isOpen s"
  then show "scroll_locked (run_calls cs s) = isOpen (run_calls cs s)"
    by (rule run_calls_lock_eq)
next
  have "scroll_locked (constructor_lb xs []) = isOpen (constructor_lb xs [])"
    by (simp add: scroll_locked_def isOpen_def constructor_lb_def)
  then show "scroll_locked (run_calls cs (constructor_lb xs []))
               = isOpen (run_calls cs (constructor_lb xs []))"
    by (rule run_calls_lock_eq)
qed

theorem scroll_lock_follows_open_witness:
  "item_at (items (constructor_lb gallery3 [])) (Num 1) \<noteq> None
   \<and> isOpen (state_of (open_lb (Num 1) (constructor_lb gallery3 [])))
   \<and> scroll_locked (state_of (open_lb (Num 1) (constructor_lb gallery3 [])))
   \<and> item_at (items (constructor_lb gallery3 [])) (Num 7) = None
   \<and> \<not> returned (open_lb (Num 7) (constructor_lb gallery3 []))
   \<and> \<not> isOpen (state_of (open_lb (Num 7) (constructor_lb gallery3 [])))
   \<and> body_overflow (state_of (open_lb (Num 7) (constructor_lb gallery3 []))) = []
   \<and> scroll_locked (constructor_lb gallery3 []) = isOpen (constructor_lb gallery3 [])
   \<and> scroll_locked (run_calls [Open (Num 1), Next, Open (Num 7)] (constructor_lb gallery3 []))
   \<and> isOpen (run_calls [Open (Num 1), Next, Open (Num 7)] (constructor_lb gallery3 []))"
proof -
  have h: "scroll_locked (constructor_lb gallery3 []) = isOpen (constructor_lb gallery3 [])"
    "item_at (items (constructor_lb gallery3 [])) (Num 1) \<noteq> None"
    "item_at (items (constructor_lb gallery3 [])) (Num 7) = None"
    by (simp_all add: scroll_locked_def isOpen_def constructor_lb_def gallery3_def)
  have c: "\<not> isOpen (constructor_lb gallery3 [])" "body_overflow (constructor_lb gallery3 []) = []"
    by (simp_all add: isOpen_def constructor_lb_def)
  have o: "isOpen (run_calls [Open (Num 1), Next, Open (Num 7)] (constructor_lb gallery3 []))"
    by (simp add: isOpen_def open_lb_lock constructor_lb_def gallery3_def)
  show ?thesis
    using h c o scroll_lock_follows_open [of "constructor_lb gallery3 []" "Num 1" "Num 7"
        "[Open (Num 1), Next, Open (Num 7)]" gallery3]
    by simp
qed

text \<open>
  C10. \<open>close()\<close> leaves \<open>currentIndex\<close> and the items as they are, so \<open>next()\<close> and
  \<open>prev()\<close> after it reach the same index as without it.
\<close>

theorem close_keeps_index:
  "currentIndex (state_of (close_lb s)) = currentIndex s
   \<and> items (state_of (close_lb s)) = items s
   \<and> currentIndex (state_of (next_lb (state_of (close_lb s)))) = currentIndex (state_of (next_lb s))
   \<and> currentIndex (state_of (prev_lb (state_of (close_lb s)))) = currentIndex (state_of (prev_lb s))"
  by (simp add: close_lb_def next_lb_def prev_lb_def)

end
